theory Spec2Isabelle
  imports Main
begin

section \<open>Python strings\<close>

text \<open>
  The command gate of \<^verbatim>\<open>src/command/executor.py\<close> works on Python \<^verbatim>\<open>str\<close> values.
  A string is modelled as a \<open>char list\<close> whose characters are the code points
  U+0000 to U+00FF; \<open>of_char\<close> reads the code point. The library functions the gate
  calls (\<^verbatim>\<open>str.lower\<close>, \<^verbatim>\<open>str.strip\<close>, \<^verbatim>\<open>in\<close>, \<^verbatim>\<open>re.search\<close>, \<^verbatim>\<open>shlex.split\<close>,
  \<^verbatim>\<open>os.path\<close>) are modelled on that range from their CPython 3.11 sources.
\<close>

definition is_upper :: "char \<Rightarrow> bool" where
  \<comment> \<open>the code points below 256 that \<^verbatim>\<open>str.lower\<close> changes: A-Z and U+00C0-U+00DE without U+00D7\<close>
  "is_upper c =
     (let n = (of_char c :: nat)
      in (65 \<le> n \<and> n \<le> 90) \<or> (192 \<le> n \<and> n \<le> 222 \<and> n \<noteq> 215))"

definition lower_char :: "char \<Rightarrow> char" where
  \<comment> \<open>the lower-case partner is 32 above; bit 5 is clear in every upper-case code point,
      so adding 32 is setting that bit\<close>
  "lower_char c =
     (if is_upper c
      then (case c of Char b0 b1 b2 b3 b4 b5 b6 b7 \<Rightarrow> Char b0 b1 b2 b3 b4 True b6 b7)
      else c)"

definition py_lower :: "string \<Rightarrow> string" where
  "py_lower s = map lower_char s"

definition py_isspace :: "char \<Rightarrow> bool" where
  \<comment> \<open>\<^verbatim>\<open>str.isspace\<close>, which is also the class \<^verbatim>\<open>\s\<close> of \<^verbatim>\<open>re\<close> on \<^verbatim>\<open>str\<close> patterns\<close>
  "py_isspace c =
     (let n = (of_char c :: nat)
      in (9 \<le> n \<and> n \<le> 13) \<or> (28 \<le> n \<and> n \<le> 32) \<or> n = 133 \<or> n = 160)"

definition strip_chars :: "(char \<Rightarrow> bool) \<Rightarrow> string \<Rightarrow> string" where
  \<comment> \<open>\<^verbatim>\<open>str.strip\<close>: drop every leading and every trailing character of the given set\<close>
  "strip_chars P s = rev (dropWhile P (rev (dropWhile P s)))"

definition py_strip :: "string \<Rightarrow> string" where
  "py_strip s = strip_chars py_isspace s"

definition is_quote :: "char \<Rightarrow> bool" where
  "is_quote c = (c = CHR 0x22 \<or> c = CHR 0x27)"

definition strip_quotes :: "string \<Rightarrow> string" where
  \<comment> \<open>\<^verbatim>\<open>target.strip('"\'')\<close>\<close>
  "strip_quotes s = strip_chars is_quote s"

fun startswith :: "string \<Rightarrow> string \<Rightarrow> bool" where
  "startswith s [] = True"
| "startswith [] (p # ps) = False"
| "startswith (c # cs) (p # ps) = (c = p \<and> startswith cs ps)"

definition endswith :: "string \<Rightarrow> string \<Rightarrow> bool" where
  "endswith s p = startswith (rev s) (rev p)"

fun str_contains :: "string \<Rightarrow> string \<Rightarrow> bool" where
  \<comment> \<open>\<^verbatim>\<open>b in s\<close> on strings: \<open>b\<close> occurs in \<open>s\<close> as a contiguous run\<close>
  "str_contains [] b = (b = [])"
| "str_contains (c # cs) b = (startswith (c # cs) b \<or> str_contains cs b)"

fun py_join :: "string \<Rightarrow> string list \<Rightarrow> string" where
  \<comment> \<open>\<^verbatim>\<open>sep.join(parts)\<close>\<close>
  "py_join sep [] = []"
| "py_join sep [w] = w"
| "py_join sep (w # v # ws) = w @ sep @ py_join sep (v # ws)"

fun py_split :: "char \<Rightarrow> string \<Rightarrow> string list" where
  \<comment> \<open>\<^verbatim>\<open>s.split(sep)\<close> for a separator of one character\<close>
  "py_split sep [] = [[]]"
| "py_split sep (c # cs) =
     (if c = sep then [] # py_split sep cs
      else (case py_split sep cs of [] \<Rightarrow> [[c]] | w # ws \<Rightarrow> (c # w) # ws))"

section \<open>Regular expressions\<close>

text \<open>
  The four patterns of \<^verbatim>\<open>_is_dangerous_command\<close> use literal characters, the class
  \<^verbatim>\<open>\s\<close>, bracketed sets with ranges, concatenation and \<^verbatim>\<open>+\<close>. \<open>regex\<close> is their
  abstract syntax (\<open>Never\<close>, \<open>Empty\<close>, \<open>Alt\<close> and \<open>Star\<close> arise as derivatives), and
  \<open>re_search\<close> is \<^verbatim>\<open>re.search(pattern, s) is not None\<close>: some position of \<open>s\<close>
  starts a match.
\<close>

datatype class_item = Single char | Range char char

datatype regex =
    Never
  | Empty
  | Chr char
  | Space
  | Class "class_item list"
  | Seq regex regex
  | Alt regex regex
  | Star regex
  | Plus regex

fun in_item :: "char \<Rightarrow> class_item \<Rightarrow> bool" where
  "in_item c (Single d) = (c = d)"
| "in_item c (Range lo hi) = ((of_char lo :: nat) \<le> of_char c \<and> (of_char c :: nat) \<le> of_char hi)"

definition in_class :: "class_item list \<Rightarrow> char \<Rightarrow> bool" where
  "in_class items c = list_ex (in_item c) items"

fun nullable :: "regex \<Rightarrow> bool" where
  "nullable Never = False"
| "nullable Empty = True"
| "nullable (Chr c) = False"
| "nullable Space = False"
| "nullable (Class items) = False"
| "nullable (Seq r s) = (nullable r \<and> nullable s)"
| "nullable (Alt r s) = (nullable r \<or> nullable s)"
| "nullable (Star r) = True"
| "nullable (Plus r) = nullable r"

fun deriv :: "char \<Rightarrow> regex \<Rightarrow> regex" where
  "deriv c Never = Never"
| "deriv c Empty = Never"
| "deriv c (Chr d) = (if c = d then Empty else Never)"
| "deriv c Space = (if py_isspace c then Empty else Never)"
| "deriv c (Class items) = (if in_class items c then Empty else Never)"
| "deriv c (Seq r s) =
     (if nullable r then Alt (Seq (deriv c r) s) (deriv c s) else Seq (deriv c r) s)"
| "deriv c (Alt r s) = Alt (deriv c r) (deriv c s)"
| "deriv c (Star r) = Seq (deriv c r) (Star r)"
| "deriv c (Plus r) = Seq (deriv c r) (Star r)"

fun match_prefix :: "regex \<Rightarrow> string \<Rightarrow> bool" where
  \<comment> \<open>some prefix of the string is matched by the expression (\<^verbatim>\<open>re.match\<close>)\<close>
  "match_prefix r [] = nullable r"
| "match_prefix r (c # cs) = (nullable r \<or> match_prefix (deriv c r) cs)"

fun re_search :: "regex \<Rightarrow> string \<Rightarrow> bool" where
  "re_search r [] = nullable r"
| "re_search r (c # cs) = (match_prefix r (c # cs) \<or> re_search r cs)"

definition lit :: "string \<Rightarrow> regex" where
  \<comment> \<open>a run of literal characters\<close>
  "lit s = foldr (\<lambda>c r. Seq (Chr c) r) s Empty"

section \<open>The safety check\<close>

definition BLOCKED_COMMANDS :: "string list" where
  "BLOCKED_COMMANDS = [''rm -rf /'', ''rmdir /s /q c:'', ''format'', ''del /f /s /q'']"

definition slash_or_backslash :: regex where
  \<comment> \<open>\<^verbatim>\<open>[/\\]\<close>\<close>
  "slash_or_backslash = Class [Single CHR ''/'', Single CHR 0x5C]"

definition drive_letter :: regex where
  \<comment> \<open>\<^verbatim>\<open>[c-zC-Z]\<close>\<close>
  "drive_letter = Class [Range CHR ''c'' CHR ''z'', Range CHR ''C'' CHR ''Z'']"

text \<open>
  The patterns, in the order of the source:
  \<^verbatim>\<open>rm\s+-rf\s+[/\\]\<close>,
  \<^verbatim>\<open>rmdir\s+/s\s+/q\s+[c-zC-Z]:\<close>,
  \<^verbatim>\<open>format\s+[c-zC-Z]:\<close> and
  \<^verbatim>\<open>del\s+/[fFqQsS]+\s+[/\\]\<close>.
\<close>

definition danger_patterns :: "regex list" where
  "danger_patterns =
     [ Seq (lit ''rm'') (Seq (Plus Space) (Seq (lit ''-rf'') (Seq (Plus Space) slash_or_backslash))),
       Seq (lit ''rmdir'') (Seq (Plus Space) (Seq (lit ''/s'') (Seq (Plus Space)
         (Seq (lit ''/q'') (Seq (Plus Space) (Seq drive_letter (Chr CHR '':''))))))),
       Seq (lit ''format'') (Seq (Plus Space) (Seq drive_letter (Chr CHR '':''))),
       Seq (lit ''del'') (Seq (Plus Space) (Seq (Chr CHR ''/'')
         (Seq (Plus (Class [Single CHR ''f'', Single CHR ''F'', Single CHR ''q'',
                            Single CHR ''Q'', Single CHR ''s'', Single CHR ''S'']))
           (Seq (Plus Space) slash_or_backslash)))) ]"

definition is_dangerous_command :: "string \<Rightarrow> bool" where
  "is_dangerous_command command =
     (let command_lower = py_lower command
      in if list_ex (\<lambda>blocked. str_contains command_lower blocked) BLOCKED_COMMANDS then True
         else if list_ex (\<lambda>pattern. re_search pattern command_lower) danger_patterns then True
         else False)"

section \<open>Tokenisation: \<^verbatim>\<open>shlex.split(command, posix=False)\<close>\<close>

text \<open>
  \<^verbatim>\<open>shlex.split\<close> sets \<^verbatim>\<open>whitespace_split\<close> and empties \<^verbatim>\<open>commenters\<close>, and the gate
  passes \<^verbatim>\<open>posix=False\<close>. Of the states of \<^verbatim>\<open>shlex.read_token\<close> three remain: \<^verbatim>\<open>' '\<close>
  (between tokens), \<^verbatim>\<open>'a'\<close> (in a word) and an open quote character. A quote opens a
  quoted token only at the start of a token; the token keeps both quote characters and
  ends at the closing one. Inside a word a quote is an ordinary character. The end of
  the input inside a quoted token raises \<^verbatim>\<open>ValueError("No closing quotation")\<close>, and
  \<^verbatim>\<open>list(lex)\<close> lets it through.
\<close>

datatype exn = ValueError string | IndexError string

datatype lex_state = InSpace | InWord | InQuote char

definition shlex_whitespace :: "char \<Rightarrow> bool" where
  \<comment> \<open>\<^verbatim>\<open>self.whitespace = ' \t\r\n'\<close>\<close>
  "shlex_whitespace c = (c = CHR '' '' \<or> c = CHR 0x09 \<or> c = CHR 0x0D \<or> c = CHR 0x0A)"

definition emit :: "string \<Rightarrow> exn + string list \<Rightarrow> exn + string list" where
  \<comment> \<open>a token is returned, and the tokens after it are read by the later calls\<close>
  "emit token later = (case later of Inl e \<Rightarrow> Inl e | Inr tokens \<Rightarrow> Inr (token # tokens))"

fun read_tokens :: "lex_state \<Rightarrow> string \<Rightarrow> string \<Rightarrow> exn + string list" where
  "read_tokens InSpace token [] = (if token \<noteq> [] then Inr [token] else Inr [])"
| "read_tokens InWord token [] = (if token \<noteq> [] then Inr [token] else Inr [])"
| "read_tokens (InQuote q) token [] = Inl (ValueError ''No closing quotation'')"
| "read_tokens InSpace token (c # cs) =
     (if shlex_whitespace c
      then (if token \<noteq> [] then emit token (read_tokens InSpace [] cs)
            else read_tokens InSpace token cs)
      else if is_quote c then read_tokens (InQuote c) [c] cs
      else read_tokens InWord [c] cs)"
| "read_tokens InWord token (c # cs) =
     (if shlex_whitespace c
      then (if token \<noteq> [] then emit token (read_tokens InSpace [] cs)
            else read_tokens InSpace token cs)
      else read_tokens InWord (token @ [c]) cs)"
| "read_tokens (InQuote q) token (c # cs) =
     (if c = q then emit (token @ [c]) (read_tokens InSpace [] cs)
      else read_tokens (InQuote q) (token @ [c]) cs)"

definition shlex_split :: "string \<Rightarrow> exn + string list" where
  "shlex_split s = read_tokens InSpace [] s"

section \<open>Paths: \<^verbatim>\<open>os.path\<close>\<close>

text \<open>
  \<^verbatim>\<open>os.path\<close> is the module \<^verbatim>\<open>ntpath\<close> on Windows, the platform the program is written
  for, and \<^verbatim>\<open>posixpath\<close> elsewhere. Both are modelled, and the platform is a parameter
  of \<open>isabs\<close>, \<open>path_join\<close> and \<open>normpath\<close>.
\<close>

datatype platform = Posix | Nt

subsection \<open>\<^verbatim>\<open>posixpath\<close>\<close>

definition posix_isabs :: "string \<Rightarrow> bool" where
  "posix_isabs s = startswith s ''/''"

definition posix_join :: "string \<Rightarrow> string \<Rightarrow> string" where
  \<comment> \<open>\<^verbatim>\<open>posixpath.join(a, b)\<close>\<close>
  "posix_join a b =
     (if startswith b ''/'' then b
      else if a = [] \<or> endswith a ''/'' then a @ b
      else a @ ''/'' @ b)"

fun posix_norm_comps :: "nat \<Rightarrow> string list \<Rightarrow> string list \<Rightarrow> string list" where
  \<comment> \<open>the loop of \<^verbatim>\<open>posixpath.normpath\<close> over \<^verbatim>\<open>comps\<close>, building \<^verbatim>\<open>new_comps\<close>\<close>
  "posix_norm_comps initial_slashes [] new_comps = new_comps"
| "posix_norm_comps initial_slashes (component # comps) new_comps =
     (if component = [] \<or> component = ''.'' then posix_norm_comps initial_slashes comps new_comps
      else if component \<noteq> ''..'' \<or> (initial_slashes = 0 \<and> new_comps = [])
              \<or> (new_comps \<noteq> [] \<and> last new_comps = ''..'')
      then posix_norm_comps initial_slashes comps (new_comps @ [component])
      else if new_comps \<noteq> [] then posix_norm_comps initial_slashes comps (butlast new_comps)
      else posix_norm_comps initial_slashes comps new_comps)"

definition posix_normpath :: "string \<Rightarrow> string" where
  "posix_normpath path =
     (if path = [] then ''.''
      else
        let initial_slashes =
              (if startswith path ''/''
               then (if startswith path ''//'' \<and> \<not> startswith path ''///'' then 2 else 1)
               else (0::nat));
            new_comps = posix_norm_comps initial_slashes (py_split CHR ''/'' path) [];
            joined = replicate initial_slashes CHR ''/'' @ py_join ''/'' new_comps
        in if joined = [] then ''.'' else joined)"

subsection \<open>\<^verbatim>\<open>ntpath\<close>\<close>

text \<open>
  The separator \<^verbatim>\<open>sep\<close> is the backslash, code point U+005C, and \<^verbatim>\<open>altsep\<close> is the slash.
  \<^verbatim>\<open>splitdrive\<close> cuts a path into its drive (\<^verbatim>\<open>C:\<close>, or the server and share of a UNC
  path) and the rest; \<^verbatim>\<open>isabs\<close>, \<^verbatim>\<open>join\<close> and \<^verbatim>\<open>normpath\<close> are built on it.
  \<^verbatim>\<open>normpath\<close> is modelled from its definition in Python in \<^verbatim>\<open>ntpath.py\<close>.
\<close>

definition nt_sep :: char where
  "nt_sep = CHR 0x5C"

definition nt_altsep :: char where
  "nt_altsep = CHR ''/''"

definition is_sep :: "char \<Rightarrow> bool" where
  \<comment> \<open>membership in \<^verbatim>\<open>seps\<close>, the two separators\<close>
  "is_sep c = (c = nt_sep \<or> c = nt_altsep)"

definition replace_altsep :: "string \<Rightarrow> string" where
  \<comment> \<open>\<^verbatim>\<open>p.replace(altsep, sep)\<close>\<close>
  "replace_altsep p = map (\<lambda>c. if c = nt_altsep then nt_sep else c) p"

definition py_find :: "char \<Rightarrow> nat \<Rightarrow> string \<Rightarrow> nat option" where
  \<comment> \<open>\<^verbatim>\<open>s.find(c, start)\<close>: the first index from \<open>start\<close> on that holds \<open>c\<close>;
      \<open>None\<close> is the answer -1\<close>
  "py_find c start s =
     (let k = start + length (takeWhile (\<lambda>x. x \<noteq> c) (drop start s))
      in if k < length s then Some k else None)"

definition is_lower :: "char \<Rightarrow> bool" where
  \<comment> \<open>the code points below 256 whose upper-case form is one code point below 256:
      a-z and U+00E0-U+00FE without U+00F7\<close>
  "is_lower c =
     (let n = (of_char c :: nat)
      in (97 \<le> n \<and> n \<le> 122) \<or> (224 \<le> n \<and> n \<le> 254 \<and> n \<noteq> 247))"

definition upper_char :: "char \<Rightarrow> char" where
  \<comment> \<open>the upper-case partner is 32 below. U+00B5, U+00DF and U+00FF have upper-case
      forms outside the range or of two letters; they are left in place, which keeps a
      string that holds one of them different from the ASCII text it is compared with
      in \<open>nt_splitdrive\<close>, the only use\<close>
  "upper_char c =
     (if is_lower c
      then (case c of Char b0 b1 b2 b3 b4 b5 b6 b7 \<Rightarrow> Char b0 b1 b2 b3 b4 False b6 b7)
      else c)"

definition py_upper :: "string \<Rightarrow> string" where
  "py_upper s = map upper_char s"

definition unc_prefix :: string where
  \<comment> \<open>two backslashes, a question mark, a backslash, \<^verbatim>\<open>UNC\<close> and a backslash\<close>
  "unc_prefix = [nt_sep, nt_sep, CHR ''?'', nt_sep, CHR ''U'', CHR ''N'', CHR ''C'', nt_sep]"

definition nt_splitdrive :: "string \<Rightarrow> string \<times> string" where
  "nt_splitdrive p =
     (if 2 \<le> length p
      then
        let normp = replace_altsep p
        in if take 2 normp = [nt_sep, nt_sep]
           then
             let start = (if py_upper (take 8 normp) = unc_prefix then 8 else 2)
             in (case py_find nt_sep start normp of
                   None \<Rightarrow> (p, [])
                 | Some index \<Rightarrow>
                     (case py_find nt_sep (index + 1) normp of
                        None \<Rightarrow> (p, [])
                      | Some index2 \<Rightarrow> (take index2 p, drop index2 p)))
           else if take 1 (drop 1 normp) = '':'' then (take 2 p, drop 2 p)
           else ([], p)
      else ([], p))"

definition nt_isabs :: "string \<Rightarrow> bool" where
  \<comment> \<open>the first three characters, with slashes turned, start with a backslash or have
      a colon and a backslash after the first character\<close>
  "nt_isabs s =
     (let s3 = replace_altsep (take 3 s)
      in startswith s3 [nt_sep] \<or> startswith (drop 1 s3) [CHR '':'', nt_sep])"

definition nt_join :: "string \<Rightarrow> string \<Rightarrow> string" where
  \<comment> \<open>\<^verbatim>\<open>ntpath.join(path, p)\<close>: the loop body for the one \<open>p\<close>, then the final test\<close>
  "nt_join path p =
     (let (result_drive, result_path) = nt_splitdrive path;
          (p_drive, p_path) = nt_splitdrive p;
          (result_drive, result_path) =
            (if p_path \<noteq> [] \<and> is_sep (hd p_path)
             then (if p_drive \<noteq> [] \<or> result_drive = [] then p_drive else result_drive, p_path)
             else if p_drive \<noteq> [] \<and> p_drive \<noteq> result_drive
                     \<and> py_lower p_drive \<noteq> py_lower result_drive
             then (p_drive, p_path)
             else (if p_drive \<noteq> [] \<and> p_drive \<noteq> result_drive then p_drive else result_drive,
                   (if result_path \<noteq> [] \<and> \<not> is_sep (last result_path)
                    then result_path @ [nt_sep] else result_path) @ p_path))
      in if result_path \<noteq> [] \<and> \<not> is_sep (hd result_path)
            \<and> result_drive \<noteq> [] \<and> last result_drive \<noteq> CHR '':''
         then result_drive @ [nt_sep] @ result_path
         else result_drive @ result_path)"

fun nt_norm_comps :: "string \<Rightarrow> string list \<Rightarrow> string list \<Rightarrow> string list" where
  \<comment> \<open>the loop of \<^verbatim>\<open>ntpath.normpath\<close> over \<^verbatim>\<open>comps\<close>: \<open>kept\<close> is \<^verbatim>\<open>comps[:i]\<close>, the third
      argument is \<^verbatim>\<open>comps[i:]\<close>\<close>
  "nt_norm_comps prefix kept [] = kept"
| "nt_norm_comps prefix kept (component # comps) =
     (if component = [] \<or> component = ''.'' then nt_norm_comps prefix kept comps
      else if component = ''..''
      then (if kept \<noteq> [] \<and> last kept \<noteq> ''..'' then nt_norm_comps prefix (butlast kept) comps
            else if kept = [] \<and> endswith prefix [nt_sep] then nt_norm_comps prefix kept comps
            else nt_norm_comps prefix (kept @ [component]) comps)
      else nt_norm_comps prefix (kept @ [component]) comps)"

definition nt_normpath :: "string \<Rightarrow> string" where
  "nt_normpath path =
     (let (prefix, rest) = nt_splitdrive (replace_altsep path);
          (prefix, rest) =
            (if startswith rest [nt_sep]
             then (prefix @ [nt_sep], dropWhile (\<lambda>c. c = nt_sep) rest)
             else (prefix, rest));
          comps = nt_norm_comps prefix [] (py_split nt_sep rest);
          comps = (if prefix = [] \<and> comps = [] then [''.''] else comps)
      in prefix @ py_join [nt_sep] comps)"

subsection \<open>The module of the platform\<close>

definition isabs :: "platform \<Rightarrow> string \<Rightarrow> bool" where
  "isabs os s = (case os of Posix \<Rightarrow> posix_isabs s | Nt \<Rightarrow> nt_isabs s)"

definition path_join :: "platform \<Rightarrow> string \<Rightarrow> string \<Rightarrow> string" where
  \<comment> \<open>\<^verbatim>\<open>os.path.join(a, b)\<close>\<close>
  "path_join os a b = (case os of Posix \<Rightarrow> posix_join a b | Nt \<Rightarrow> nt_join a b)"

definition normpath :: "platform \<Rightarrow> string \<Rightarrow> string" where
  "normpath os path = (case os of Posix \<Rightarrow> posix_normpath path | Nt \<Rightarrow> nt_normpath path)"

section \<open>The host\<close>

text \<open>
  What the gate asks of the operating system is a parameter of the model.
  \<open>os_name\<close> is the platform, which selects the module behind \<^verbatim>\<open>os.path\<close>. \<open>isdir\<close> is \<^verbatim>\<open>os.path.isdir\<close>; \<open>Inl msg\<close> stands for an exception whose \<^verbatim>\<open>str\<close> is
  \<open>msg\<close>, which the handler's \<^verbatim>\<open>except Exception\<close> catches. \<open>popen command cwd\<close> is
  \<^verbatim>\<open>subprocess.Popen(command, shell=True, ..., cwd=cwd)\<close> followed by
  \<^verbatim>\<open>communicate(timeout=30)\<close>: the process exits with a return code and the decoded
  standard output and standard error, or \<^verbatim>\<open>TimeoutExpired\<close> is raised, or another
  exception with the given \<^verbatim>\<open>str\<close> is raised.
\<close>

datatype process = Exited int string string | TimeoutExpired | Raised string

record host =
  os_name :: platform
  isdir :: "string \<Rightarrow> string + bool"
  popen :: "string \<Rightarrow> string \<Rightarrow> process"

section \<open>The command gate\<close>

text \<open>
  An outcome is the tuple \<^verbatim>\<open>(output, success, new_directory)\<close>. \<open>execute_command\<close>
  returns \<open>Inl\<close> for an exception that reaches its caller, and otherwise the outcome
  together with the calls of \<^verbatim>\<open>subprocess.Popen\<close> it made, each as the pair of the command
  line and the working directory.
\<close>

type_synonym outcome = "string \<times> bool \<times> string option"

definition DIRECTORY_COMMANDS :: "string list" where
  "DIRECTORY_COMMANDS = [''cd'', ''chdir'', ''pushd'', ''popd'']"

definition is_directory_command :: "string \<Rightarrow> exn + bool" where
  "is_directory_command command =
     (case shlex_split command of
        Inl e \<Rightarrow> Inl e
      | Inr cmd_parts \<Rightarrow>
          (case cmd_parts of
             [] \<Rightarrow> Inr False
           | first # rest \<Rightarrow> Inr (py_lower first \<in> set DIRECTORY_COMMANDS)))"

definition handle_directory_command :: "host \<Rightarrow> string \<Rightarrow> string \<Rightarrow> exn + outcome" where
  "handle_directory_command h command current_directory =
     (case shlex_split command of
        Inl e \<Rightarrow> Inl e
      | Inr cmd_parts \<Rightarrow>
          (case cmd_parts of
             [] \<Rightarrow> Inl (IndexError ''list index out of range'')
           | first # rest \<Rightarrow>
               let base_cmd = py_lower first
               in if base_cmd = ''cd'' \<or> base_cmd = ''chdir''
                  then
                    if length cmd_parts = 1 then Inr (current_directory, True, None)
                    else
                      let target = strip_quotes (py_join '' '' rest);
                          new_dir = (if isabs (os_name h) target then target
                                     else normpath (os_name h)
                                            (path_join (os_name h) current_directory target))
                      in (case isdir h new_dir of
                            Inl e \<Rightarrow> Inr (''Error changing directory: '' @ e, False, None)
                          | Inr True \<Rightarrow> Inr (''Changed directory to: '' @ new_dir, True, Some new_dir)
                          | Inr False \<Rightarrow>
                              Inr (''The system cannot find the path specified: '' @ target,
                                   False, None))
                  else Inr (''Command '' @ base_cmd @ '' not fully implemented.'', False, None)))"

definition blocked_message :: string where
  "blocked_message =
     ''Command blocked for safety reasons. Please use a less destructive alternative.''"

definition execute_command ::
    "host \<Rightarrow> string \<Rightarrow> string \<Rightarrow> exn + (outcome \<times> (string \<times> string) list)" where
  "execute_command h command current_directory =
     (if is_dangerous_command command then Inr ((blocked_message, False, None), [])
      else
        case is_directory_command command of
          Inl e \<Rightarrow> Inl e
        | Inr True \<Rightarrow>
            (case handle_directory_command h command current_directory of
               Inl e \<Rightarrow> Inl e
             | Inr out \<Rightarrow> Inr (out, []))
        | Inr False \<Rightarrow>
            if py_lower (py_strip command) \<in> set [''exit'', ''quit'']
            then Inr ((''Use the window close button to exit the application.'', True, None), [])
            else
              (case popen h command current_directory of
                 Exited returncode stdout stderr \<Rightarrow>
                   if returncode = 0
                   then Inr ((py_strip stdout, True, None), [(command, current_directory)])
                   else Inr ((''Error: '' @ py_strip stderr, False, None),
                             [(command, current_directory)])
               | TimeoutExpired \<Rightarrow>
                   Inr ((''Command timed out after 30 seconds'', False, None),
                        [(command, current_directory)])
               | Raised e \<Rightarrow>
                   Inr ((''Failed to execute command: '' @ e, False, None),
                        [(command, current_directory)])))"

text \<open>
  The caller, \<^verbatim>\<open>MainWindow._execute_command\<close> of \<^verbatim>\<open>src/ui/main_window.py\<close>, keeps the
  working directory of the session and replaces it when the outcome carries a new one
  (a non-empty string that differs from the current one). An exception of the gate
  leaves the directory as it was.
\<close>

definition submit :: "host \<Rightarrow> string \<Rightarrow> string \<Rightarrow> string" where
  "submit h command current_directory =
     (case execute_command h command current_directory of
        Inl e \<Rightarrow> current_directory
      | Inr ((result, success, new_directory), calls) \<Rightarrow>
          (case new_directory of
             None \<Rightarrow> current_directory
           | Some d \<Rightarrow> if d \<noteq> [] \<and> d \<noteq> current_directory then d else current_directory))"

section \<open>What a pattern matches\<close>

text \<open>
  The words a regular expression matches, as a set. This is the reading of the
  patterns that the properties below refer to; \<open>re_search\<close> is proved to decide it.
\<close>

definition conc :: "string set \<Rightarrow> string set \<Rightarrow> string set" where
  "conc A B = {u @ v | u v. u \<in> A \<and> v \<in> B}"

inductive_set star :: "string set \<Rightarrow> string set" for A :: "string set" where
  star_nil: "[] \<in> star A"
| star_app: "u \<in> A \<Longrightarrow> v \<in> star A \<Longrightarrow> u @ v \<in> star A"

fun lang :: "regex \<Rightarrow> string set" where
  "lang Never = {}"
| "lang Empty = {[]}"
| "lang (Chr c) = {[c]}"
| "lang Space = {[c] | c. py_isspace c}"
| "lang (Class items) = {[c] | c. in_class items c}"
| "lang (Seq r s) = conc (lang r) (lang s)"
| "lang (Alt r s) = lang r \<union> lang s"
| "lang (Star r) = star (lang r)"
| "lang (Plus r) = conc (lang r) (star (lang r))"

section \<open>Absolute paths and their parents\<close>

text \<open>
  On POSIX an absolute, normalised path is a slash followed by proper names joined by
  slashes: \<open>abs_path [''home'', ''user'']\<close> is \<^verbatim>\<open>/home/user\<close>, and \<open>abs_path []\<close> is the
  root. On Windows it is a drive, a backslash and names joined by backslashes:
  \<open>drive_path CHR ''C'' [''Users'', ''me'']\<close> is \<^verbatim>\<open>C:\Users\me\<close>, and
  \<open>drive_path CHR ''C'' []\<close> is the root of the drive. The parent of
  \<open>abs_path (names @ [name])\<close> is \<open>abs_path names\<close>, and the parent of
  \<open>drive_path d (names @ [name])\<close> is \<open>drive_path d names\<close>.
\<close>

definition proper_name :: "string \<Rightarrow> bool" where
  "proper_name n = (n \<noteq> [] \<and> CHR ''/'' \<notin> set n \<and> n \<noteq> ''.'' \<and> n \<noteq> ''..'')"

definition abs_path :: "string list \<Rightarrow> string" where
  "abs_path names = ''/'' @ py_join ''/'' names"

definition nt_name :: "string \<Rightarrow> bool" where
  "nt_name n = (n \<noteq> [] \<and> nt_sep \<notin> set n \<and> nt_altsep \<notin> set n \<and> n \<noteq> ''.'' \<and> n \<noteq> ''..'')"

definition drive_path :: "char \<Rightarrow> string list \<Rightarrow> string" where
  "drive_path d names = [d, CHR '':'', nt_sep] @ py_join [nt_sep] names"

section \<open>Expressions that match nothing, characters that are never matched\<close>



section \<open>Plain words\<close>


section \<open>Hosts for the examples\<close>

text \<open>
  \<open>host_with dirs proc\<close> is a POSIX host on which exactly the paths of \<open>dirs\<close> are
  directories and every process ends as \<open>proc\<close>; \<open>windows_with dirs proc\<close> is the same
  on Windows.
\<close>

definition host_with :: "string list \<Rightarrow> process \<Rightarrow> host" where
  "host_with dirs proc =
     \<lparr>os_name = Posix, isdir = (\<lambda>path. Inr (path \<in> set dirs)), popen = (\<lambda>command cwd. proc)\<rparr>"

definition windows_with :: "string list \<Rightarrow> process \<Rightarrow> host" where
  "windows_with dirs proc =
     \<lparr>os_name = Nt, isdir = (\<lambda>path. Inr (path \<in> set dirs)), popen = (\<lambda>command cwd. proc)\<rparr>"

section \<open>Properties of the string functions\<close>

lemma startswith_iff: "startswith s p \<longleftrightarrow> (\<exists>q. s = p @ q)"
  by (induction s p rule: startswith.induct) auto

lemma str_contains_iff: "str_contains s b \<longleftrightarrow> (\<exists>p q. s = p @ b @ q)"
proof (induction s)
  case Nil
  then show ?case by auto
next
  case (Cons c cs)
  show ?case
  proof
    assume "str_contains (c # cs) b"
    then consider "startswith (c # cs) b" | "str_contains cs b" by auto
    then show "\<exists>p q. c # cs = p @ b @ q"
    proof cases
      case 1
      then obtain q where "c # cs = b @ q" using startswith_iff by blast
      then have "c # cs = [] @ b @ q" by simp
      then show ?thesis by blast
    next
      case 2
      then obtain p q where "cs = p @ b @ q" using Cons.IH by blast
      then have "c # cs = (c # p) @ b @ q" by simp
      then show ?thesis by blast
    qed
  next
    assume "\<exists>p q. c # cs = p @ b @ q"
    then obtain p q where pq: "c # cs = p @ b @ q" by blast
    show "str_contains (c # cs) b"
    proof (cases p)
      case Nil
      with pq have "startswith (c # cs) b" using startswith_iff by auto
      then show ?thesis by simp
    next
      case (Cons a p')
      with pq have "cs = p' @ b @ q" by simp
      then have "str_contains cs b" using Cons.IH by blast
      then show ?thesis by simp
    qed
  qed
qed

section \<open>Correctness of the pattern search\<close>

lemma concI: "u \<in> A \<Longrightarrow> v \<in> B \<Longrightarrow> u @ v \<in> conc A B"
  unfolding conc_def by blast

lemma conc_iff: "x \<in> conc A B \<longleftrightarrow> (\<exists>u v. x = u @ v \<and> u \<in> A \<and> v \<in> B)"
  unfolding conc_def by blast

lemma conc_nil_iff: "[] \<in> conc A B \<longleftrightarrow> [] \<in> A \<and> [] \<in> B"
  by (auto simp: conc_iff)

lemma conc_cons_iff:
  "c # w \<in> conc A B \<longleftrightarrow>
     ([] \<in> A \<and> c # w \<in> B) \<or> (\<exists>u v. w = u @ v \<and> c # u \<in> A \<and> v \<in> B)"
proof
  assume "c # w \<in> conc A B"
  then obtain u v where uv: "c # w = u @ v" "u \<in> A" "v \<in> B"
    using conc_iff by blast
  show "([] \<in> A \<and> c # w \<in> B) \<or> (\<exists>u v. w = u @ v \<and> c # u \<in> A \<and> v \<in> B)"
  proof (cases u)
    case Nil
    with uv show ?thesis by simp
  next
    case (Cons a u')
    with uv have "w = u' @ v" "c # u' \<in> A" by auto
    with uv(3) show ?thesis by blast
  qed
next
  assume "([] \<in> A \<and> c # w \<in> B) \<or> (\<exists>u v. w = u @ v \<and> c # u \<in> A \<and> v \<in> B)"
  then show "c # w \<in> conc A B"
  proof
    assume "[] \<in> A \<and> c # w \<in> B"
    then have "[] @ (c # w) \<in> conc A B" by (intro concI) auto
    then show ?thesis by simp
  next
    assume "\<exists>u v. w = u @ v \<and> c # u \<in> A \<and> v \<in> B"
    then obtain u v where w: "w = u @ v" and "c # u \<in> A" "v \<in> B" by blast
    then have "(c # u) @ v \<in> conc A B" by (intro concI)
    with w show ?thesis by simp
  qed
qed

lemma star_cons_split:
  "x \<in> star A \<Longrightarrow> x = c # w \<Longrightarrow> \<exists>u v. w = u @ v \<and> c # u \<in> A \<and> v \<in> star A"
proof (induction arbitrary: w rule: star.induct)
  case star_nil
  then show ?case by simp
next
  case (star_app u v)
  show ?case
  proof (cases u)
    case Nil
    with star_app show ?thesis by simp
  next
    case (Cons a u')
    with star_app.prems have "w = u' @ v" "a = c" by auto
    with Cons star_app.hyps show ?thesis by blast
  qed
qed

lemma star_cons_iff:
  "c # w \<in> star A \<longleftrightarrow> (\<exists>u v. w = u @ v \<and> c # u \<in> A \<and> v \<in> star A)"
proof
  assume "c # w \<in> star A"
  then show "\<exists>u v. w = u @ v \<and> c # u \<in> A \<and> v \<in> star A"
    using star_cons_split by blast
next
  assume "\<exists>u v. w = u @ v \<and> c # u \<in> A \<and> v \<in> star A"
  then obtain u v where w: "w = u @ v" and "c # u \<in> A" "v \<in> star A" by blast
  then have "(c # u) @ v \<in> star A" by (intro star_app)
  with w show "c # w \<in> star A" by simp
qed

lemma plus_cons_iff:
  "c # w \<in> conc A (star A) \<longleftrightarrow> (\<exists>u v. w = u @ v \<and> c # u \<in> A \<and> v \<in> star A)"
proof -
  have "c # w \<in> conc A (star A) \<longleftrightarrow> c # w \<in> star A"
  proof
    assume "c # w \<in> conc A (star A)"
    then obtain u v where "c # w = u @ v" "u \<in> A" "v \<in> star A"
      using conc_iff by blast
    then show "c # w \<in> star A" using star_app by metis
  next
    assume "c # w \<in> star A"
    then obtain u v where "w = u @ v \<and> c # u \<in> A \<and> v \<in> star A"
      using star_cons_iff by blast
    then show "c # w \<in> conc A (star A)"
      using conc_cons_iff by blast
  qed
  then show ?thesis by (simp only: star_cons_iff)
qed

lemma nullable_iff: "nullable r \<longleftrightarrow> [] \<in> lang r"
  by (induction r) (auto simp: conc_nil_iff intro: star_nil)

lemma deriv_iff: "w \<in> lang (deriv c r) \<longleftrightarrow> c # w \<in> lang r"
proof (induction r arbitrary: w)
  case (Seq r s)
  have step: "w \<in> conc (lang (deriv c r)) (lang s) \<longleftrightarrow>
        (\<exists>u v. w = u @ v \<and> c # u \<in> lang r \<and> v \<in> lang s)"
    by (simp only: conc_iff Seq.IH)
  show ?case
  proof (cases "nullable r")
    case True
    then have "[] \<in> lang r" by (simp add: nullable_iff)
    with True show ?thesis
      using step Seq.IH(2) [of w] by (auto simp: conc_cons_iff)
  next
    case False
    then have "[] \<notin> lang r" by (simp add: nullable_iff)
    with False show ?thesis
      using step by (auto simp: conc_cons_iff)
  qed
next
  case (Star r)
  have "w \<in> conc (lang (deriv c r)) (star (lang r)) \<longleftrightarrow>
        (\<exists>u v. w = u @ v \<and> c # u \<in> lang r \<and> v \<in> star (lang r))"
    by (simp only: conc_iff Star.IH)
  then show ?case by (simp add: star_cons_iff)
next
  case (Plus r)
  have "w \<in> conc (lang (deriv c r)) (star (lang r)) \<longleftrightarrow>
        (\<exists>u v. w = u @ v \<and> c # u \<in> lang r \<and> v \<in> star (lang r))"
    by (simp only: conc_iff Plus.IH)
  then show ?case by (simp add: plus_cons_iff)
qed auto

lemma match_prefix_iff: "match_prefix r s \<longleftrightarrow> (\<exists>m q. s = m @ q \<and> m \<in> lang r)"
proof (induction s arbitrary: r)
  case Nil
  then show ?case by (simp add: nullable_iff)
next
  case (Cons c cs)
  have "(\<exists>m q. c # cs = m @ q \<and> m \<in> lang r) \<longleftrightarrow>
        [] \<in> lang r \<or> (\<exists>m q. cs = m @ q \<and> c # m \<in> lang r)"
  proof
    assume "\<exists>m q. c # cs = m @ q \<and> m \<in> lang r"
    then obtain m q where mq: "c # cs = m @ q" "m \<in> lang r" by blast
    show "[] \<in> lang r \<or> (\<exists>m q. cs = m @ q \<and> c # m \<in> lang r)"
    proof (cases m)
      case Nil
      with mq show ?thesis by simp
    next
      case (Cons a m')
      with mq have "cs = m' @ q" "c # m' \<in> lang r" by auto
      then show ?thesis by blast
    qed
  next
    assume "[] \<in> lang r \<or> (\<exists>m q. cs = m @ q \<and> c # m \<in> lang r)"
    then show "\<exists>m q. c # cs = m @ q \<and> m \<in> lang r"
    proof
      assume "[] \<in> lang r"
      then have "c # cs = [] @ (c # cs) \<and> [] \<in> lang r" by simp
      then show ?thesis by blast
    next
      assume "\<exists>m q. cs = m @ q \<and> c # m \<in> lang r"
      then obtain m q where "cs = m @ q" "c # m \<in> lang r" by blast
      then have "c # cs = (c # m) @ q \<and> c # m \<in> lang r" by simp
      then show ?thesis by blast
    qed
  qed
  then show ?case by (simp add: Cons.IH nullable_iff deriv_iff)
qed

lemma re_search_iff: "re_search r s \<longleftrightarrow> (\<exists>p m q. s = p @ m @ q \<and> m \<in> lang r)"
proof (induction s)
  case Nil
  then show ?case by (simp add: nullable_iff)
next
  case (Cons c cs)
  have "(\<exists>p m q. c # cs = p @ m @ q \<and> m \<in> lang r) \<longleftrightarrow>
        (\<exists>m q. c # cs = m @ q \<and> m \<in> lang r) \<or> (\<exists>p m q. cs = p @ m @ q \<and> m \<in> lang r)"
  proof
    assume "\<exists>p m q. c # cs = p @ m @ q \<and> m \<in> lang r"
    then obtain p m q where pmq: "c # cs = p @ m @ q" "m \<in> lang r" by blast
    show "(\<exists>m q. c # cs = m @ q \<and> m \<in> lang r) \<or> (\<exists>p m q. cs = p @ m @ q \<and> m \<in> lang r)"
    proof (cases p)
      case Nil
      with pmq show ?thesis by auto
    next
      case (Cons a p')
      with pmq have "cs = p' @ m @ q" by simp
      with pmq(2) show ?thesis by blast
    qed
  next
    assume "(\<exists>m q. c # cs = m @ q \<and> m \<in> lang r) \<or> (\<exists>p m q. cs = p @ m @ q \<and> m \<in> lang r)"
    then show "\<exists>p m q. c # cs = p @ m @ q \<and> m \<in> lang r"
    proof
      assume "\<exists>m q. c # cs = m @ q \<and> m \<in> lang r"
      then obtain m q where "c # cs = [] @ m @ q \<and> m \<in> lang r" by auto
      then show ?thesis by blast
    next
      assume "\<exists>p m q. cs = p @ m @ q \<and> m \<in> lang r"
      then obtain p m q where "c # cs = (c # p) @ m @ q \<and> m \<in> lang r" by auto
      then show ?thesis by blast
    qed
  qed
  then show ?case using Cons.IH by (simp only: re_search.simps match_prefix_iff)
qed


lemma lang_foldl: "m \<in> lang r \<longleftrightarrow> nullable (foldl (\<lambda>r c. deriv c r) r m)"
  by (induction m arbitrary: r) (simp_all add: nullable_iff deriv_iff [symmetric])

section \<open>The safety check comes first\<close>

lemmas lower_eval = py_lower_def lower_char_def is_upper_def

lemmas danger_eval = is_dangerous_command_def BLOCKED_COMMANDS_def danger_patterns_def lit_def
  slash_or_backslash_def drive_letter_def in_class_def py_isspace_def lower_eval

lemmas shlex_eval = shlex_split_def shlex_whitespace_def is_quote_def emit_def

lemma is_dangerous_command_iff:
  "is_dangerous_command command \<longleftrightarrow>
     (\<exists>blocked \<in> set BLOCKED_COMMANDS. \<exists>p q. py_lower command = p @ blocked @ q) \<or>
     (\<exists>pattern \<in> set danger_patterns. \<exists>p m q. py_lower command = p @ m @ q \<and> m \<in> lang pattern)"
  by (simp add: is_dangerous_command_def Let_def list_ex_iff str_contains_iff re_search_iff)

text \<open>
  Claim C1. A command whose lower-cased text contains one of the blocked literals, or
  contains a word matched by one of the danger patterns, is answered with the
  blocked-for-safety message, \<open>success = False\<close> and no new directory, on every host and
  in every working directory, and no process is started. The check comes before the
  tokenisation, so the command is blocked whatever its first token is, also when the
  tokenisation would fail.
\<close>

theorem dangerous_blocked:
  assumes "(\<exists>blocked \<in> set BLOCKED_COMMANDS. \<exists>p q. py_lower command = p @ blocked @ q) \<or>
     (\<exists>pattern \<in> set danger_patterns. \<exists>p m q. py_lower command = p @ m @ q \<and> m \<in> lang pattern)"
  shows "execute_command h command current_directory = Inr ((blocked_message, False, None), [])"
  using assms by (simp add: execute_command_def is_dangerous_command_iff)

theorem dangerous_blocked_witness:
  "py_lower ''cd x; RM  -Rf /tmp'' = ''cd x; '' @ ''rm  -rf /'' @ ''tmp'' \<and>
   ''rm  -rf /'' \<in> lang (hd danger_patterns) \<and>
   execute_command (host_with [''/home/x''] (Exited 0 [] [])) ''cd x; RM  -Rf /tmp'' ''/home'' =
     Inr ((blocked_message, False, None), [])"
proof -
  have low: "py_lower ''cd x; RM  -Rf /tmp'' = ''cd x; '' @ ''rm  -rf /'' @ ''tmp''"
    by (simp add: lower_eval)
  have m: "''rm  -rf /'' \<in> lang (hd danger_patterns)"
    by (simp only: lang_foldl)
       (simp add: danger_patterns_def lit_def slash_or_backslash_def in_class_def py_isspace_def)
  have "hd danger_patterns \<in> set danger_patterns"
    by (simp add: danger_patterns_def)
  with low m have
    "(\<exists>blocked \<in> set BLOCKED_COMMANDS. \<exists>p q. py_lower ''cd x; RM  -Rf /tmp'' = p @ blocked @ q) \<or>
     (\<exists>pattern \<in> set danger_patterns. \<exists>p m q.
        py_lower ''cd x; RM  -Rf /tmp'' = p @ m @ q \<and> m \<in> lang pattern)"
    by blast
  then show ?thesis using low m dangerous_blocked by blast
qed

text \<open>
  Claim C10. The literal \<^verbatim>\<open>format\<close> is looked for as a bare substring of the lower-cased
  text: every command that contains it, such as \<^verbatim>\<open>echo Information\<close>, is blocked.
\<close>

theorem format_blocked:
  assumes "py_lower command = before @ ''format'' @ after"
  shows "execute_command h command current_directory = Inr ((blocked_message, False, None), [])"
proof -
  have "str_contains (py_lower command) ''format''"
    using assms str_contains_iff by blast
  then have "is_dangerous_command command"
    by (simp add: is_dangerous_command_def BLOCKED_COMMANDS_def)
  then show ?thesis by (simp add: execute_command_def)
qed

theorem format_blocked_witness:
  "py_lower ''echo Information'' = ''echo in'' @ ''format'' @ ''ion'' \<and>
   execute_command (host_with [] (Exited 0 ''Information'' [])) ''echo Information'' ''/home/user'' =
     Inr ((blocked_message, False, None), [])"
proof -
  have low: "py_lower ''echo Information'' = ''echo in'' @ ''format'' @ ''ion''"
    by (simp add: lower_eval)
  show ?thesis using low format_blocked [OF low] by simp
qed

section \<open>Exceptions that reach the caller\<close>

text \<open>
  Claim C2. The gate does not catch the \<^verbatim>\<open>ValueError\<close> of \<^verbatim>\<open>shlex.split\<close>: the call in
  \<^verbatim>\<open>_is_directory_command\<close> is outside every \<^verbatim>\<open>try\<close>. A command with an opening quote
  that is never closed, here \<^verbatim>\<open>echo "hello\<close>, makes \<open>execute_command\<close> raise on every
  host and in every working directory.
\<close>

theorem unbalanced_quote_raises:
  "execute_command h (''echo '' @ [CHR 0x22] @ ''hello'') current_directory =
     Inl (ValueError ''No closing quotation'')"
  by (simp add: execute_command_def danger_eval is_directory_command_def shlex_eval)

lemmas path_eval = isabs_def path_join_def normpath_def endswith_def
  posix_isabs_def posix_join_def posix_normpath_def

lemmas nt_eval = nt_isabs_def nt_join_def nt_normpath_def nt_splitdrive_def replace_altsep_def
  is_sep_def nt_sep_def nt_altsep_def py_find_def py_upper_def upper_char_def is_lower_def
  unc_prefix_def drive_path_def windows_with_def

lemmas gate_eval = execute_command_def is_directory_command_def handle_directory_command_def
  DIRECTORY_COMMANDS_def py_strip_def strip_quotes_def strip_chars_def host_with_def Let_def

section \<open>Host execution\<close>

text \<open>
  Claim C3. A command reaches host execution when it passes the safety check, is not
  a directory command and is not \<^verbatim>\<open>exit\<close> or \<^verbatim>\<open>quit\<close>. Then \<^verbatim>\<open>Popen\<close> is called once,
  with the command and the working directory as given, and the outcome follows the
  process: return code 0 gives \<open>success = True\<close> and the stripped standard output
  (which may be empty); another return code gives \<open>success = False\<close> and the stripped
  standard error after \<^verbatim>\<open>Error: \<close>; \<^verbatim>\<open>TimeoutExpired\<close> gives \<open>success = False\<close> and the
  timeout message, with nothing of the output; any other exception gives
  \<open>success = False\<close> and the launch-failure message. No case has a new directory.
\<close>

theorem host_execution:
  assumes "\<not> is_dangerous_command command"
    and "is_directory_command command = Inr False"
    and "py_lower (py_strip command) \<noteq> ''exit''"
    and "py_lower (py_strip command) \<noteq> ''quit''"
  shows "(popen h command current_directory = Exited 0 out err \<longrightarrow>
            execute_command h command current_directory =
              Inr ((py_strip out, True, None), [(command, current_directory)])) \<and>
         (popen h command current_directory = Exited code out err \<and> code \<noteq> 0 \<longrightarrow>
            execute_command h command current_directory =
              Inr ((''Error: '' @ py_strip err, False, None), [(command, current_directory)])) \<and>
         (popen h command current_directory = TimeoutExpired \<longrightarrow>
            execute_command h command current_directory =
              Inr ((''Command timed out after 30 seconds'', False, None),
                   [(command, current_directory)])) \<and>
         (popen h command current_directory = Raised e \<longrightarrow>
            execute_command h command current_directory =
              Inr ((''Failed to execute command: '' @ e, False, None),
                   [(command, current_directory)]))"
  using assms by (simp add: execute_command_def)

theorem host_execution_witness:
  "\<not> is_dangerous_command ''echo Hello World'' \<and>
   is_directory_command ''echo Hello World'' = Inr False \<and>
   py_lower (py_strip ''echo Hello World'') \<noteq> ''exit'' \<and>
   py_lower (py_strip ''echo Hello World'') \<noteq> ''quit'' \<and>
   execute_command (host_with [] (Exited 0 (''Hello World'' @ [CHR 0x0A]) []))
       ''echo Hello World'' ''/home/user'' =
     Inr ((''Hello World'', True, None), [(''echo Hello World'', ''/home/user'')]) \<and>
   execute_command (host_with [] (Exited 0 [] [])) ''echo Hello World'' ''/home/user'' =
     Inr (([], True, None), [(''echo Hello World'', ''/home/user'')]) \<and>
   execute_command (host_with [] (Exited 127 ''partial'' ('' sh: not found'' @ [CHR 0x0A])))
       ''echo Hello World'' ''/home/user'' =
     Inr ((''Error: sh: not found'', False, None), [(''echo Hello World'', ''/home/user'')]) \<and>
   execute_command (host_with [] TimeoutExpired) ''echo Hello World'' ''/home/user'' =
     Inr ((''Command timed out after 30 seconds'', False, None),
          [(''echo Hello World'', ''/home/user'')]) \<and>
   execute_command (host_with [] (Raised ''embedded null byte'')) ''echo Hello World'' ''/home/user'' =
     Inr ((''Failed to execute command: embedded null byte'', False, None),
          [(''echo Hello World'', ''/home/user'')])"
proof -
  have safe: "\<not> is_dangerous_command ''echo Hello World''"
    by (simp add: danger_eval)
  have nodir: "is_directory_command ''echo Hello World'' = Inr False"
    by (simp add: is_directory_command_def DIRECTORY_COMMANDS_def shlex_eval lower_eval)
  have ne: "py_lower (py_strip ''echo Hello World'') \<noteq> ''exit''"
    "py_lower (py_strip ''echo Hello World'') \<noteq> ''quit''"
    by (simp_all add: py_strip_def strip_chars_def py_isspace_def lower_eval)
  note run = host_execution [OF safe nodir ne, where current_directory = "''/home/user''"]
  have ok: "execute_command (host_with [] (Exited 0 (''Hello World'' @ [CHR 0x0A]) []))
       ''echo Hello World'' ''/home/user'' =
     Inr ((''Hello World'', True, None), [(''echo Hello World'', ''/home/user'')])"
    using run [where h = "host_with [] (Exited 0 (''Hello World'' @ [CHR 0x0A]) [])"
        and out = "''Hello World'' @ [CHR 0x0A]" and err = "[]"]
    by (simp add: host_with_def py_strip_def strip_chars_def py_isspace_def)
  have silent: "execute_command (host_with [] (Exited 0 [] [])) ''echo Hello World'' ''/home/user'' =
     Inr (([], True, None), [(''echo Hello World'', ''/home/user'')])"
    using run [where h = "host_with [] (Exited 0 [] [])" and out = "[]" and err = "[]"]
    by (simp add: host_with_def py_strip_def strip_chars_def)
  have failed: "execute_command (host_with [] (Exited 127 ''partial'' ('' sh: not found'' @ [CHR 0x0A])))
       ''echo Hello World'' ''/home/user'' =
     Inr ((''Error: sh: not found'', False, None), [(''echo Hello World'', ''/home/user'')])"
    using run [where h = "host_with [] (Exited 127 ''partial'' ('' sh: not found'' @ [CHR 0x0A]))"
        and code = 127 and out = "''partial''" and err = "'' sh: not found'' @ [CHR 0x0A]"]
    by (simp add: host_with_def py_strip_def strip_chars_def py_isspace_def)
  have late: "execute_command (host_with [] TimeoutExpired) ''echo Hello World'' ''/home/user'' =
     Inr ((''Command timed out after 30 seconds'', False, None),
          [(''echo Hello World'', ''/home/user'')])"
    using run [where h = "host_with [] TimeoutExpired"]
    by (simp add: host_with_def)
  have broken: "execute_command (host_with [] (Raised ''embedded null byte''))
       ''echo Hello World'' ''/home/user'' =
     Inr ((''Failed to execute command: embedded null byte'', False, None),
          [(''echo Hello World'', ''/home/user'')])"
    using run [where h = "host_with [] (Raised ''embedded null byte'')"
        and e = "''embedded null byte''"]
    by (simp add: host_with_def)
  from safe nodir ne ok silent failed late broken show ?thesis by blast
qed

section \<open>The bare directory query\<close>

text \<open>
  Claim C7. \<^verbatim>\<open>cd\<close> alone answers with the working directory as the message,
  \<open>success = True\<close> and no new directory, in every working directory and on every
  host, without starting a process; submitted any number of times, it leaves the
  directory of the session as it was, and the next \<^verbatim>\<open>cd\<close> reports that directory again.
\<close>

theorem bare_cd_reports_directory:
  "execute_command h ''cd'' current_directory = Inr ((current_directory, True, None), []) \<and>
   (submit h ''cd'' ^^ n) current_directory = current_directory \<and>
   execute_command h ''cd'' ((submit h ''cd'' ^^ n) current_directory) =
     Inr ((current_directory, True, None), [])"
proof -
  have one: "execute_command h ''cd'' d = Inr ((d, True, None), [])" for d
    by (simp add: gate_eval danger_eval shlex_eval)
  then have stay: "submit h ''cd'' d = d" for d
    by (simp add: submit_def)
  have "(submit h ''cd'' ^^ n) current_directory = current_directory"
    by (induction n) (simp_all add: stay)
  with one show ?thesis by simp
qed

section \<open>The directory stack\<close>

text \<open>
  A command that passes the safety check and is split into tokens of which the first,
  lower-cased, is \<^verbatim>\<open>pushd\<close> or \<^verbatim>\<open>popd\<close>, with or without arguments, is answered with
  \<open>success = False\<close>, the message that the command is not fully implemented, and no new
  directory. No process is started and the directory of the session stays.
\<close>

lemma pushd_popd_tokenised:
  assumes "\<not> is_dangerous_command command"
    and "shlex_split command = Inr (first # rest)"
    and "py_lower first = ''pushd'' \<or> py_lower first = ''popd''"
  shows "execute_command h command current_directory =
           Inr ((''Command '' @ py_lower first @ '' not fully implemented.'', False, None), []) \<and>
         submit h command current_directory = current_directory"
  using assms
  by (auto simp: execute_command_def is_directory_command_def handle_directory_command_def
      DIRECTORY_COMMANDS_def submit_def)

lemma pushd_popd_tokenised_example:
  "\<not> is_dangerous_command ''PushD /tmp'' \<and>
   shlex_split ''PushD /tmp'' = Inr [''PushD'', ''/tmp''] \<and>
   py_lower ''PushD'' = ''pushd'' \<and>
   execute_command (host_with [''/tmp''] (Exited 0 [] [])) ''PushD /tmp'' ''/home'' =
     Inr ((''Command pushd not fully implemented.'', False, None), []) \<and>
   submit (host_with [''/tmp''] (Exited 0 [] [])) ''PushD /tmp'' ''/home'' = ''/home''"
proof -
  have safe: "\<not> is_dangerous_command ''PushD /tmp''"
    by (simp add: danger_eval)
  have toks: "shlex_split ''PushD /tmp'' = Inr [''PushD'', ''/tmp'']"
    by (simp add: shlex_eval)
  have verb: "py_lower ''PushD'' = ''pushd''"
    by (simp add: lower_eval)
  then have "py_lower ''PushD'' = ''pushd'' \<or> py_lower ''PushD'' = ''popd''" by simp
  from pushd_popd_tokenised [OF safe toks this] safe toks verb
  show ?thesis by simp
qed

text \<open>
  Claim C8 does not hold of the code for every non-dangerous command that starts with
  \<^verbatim>\<open>pushd\<close> or \<^verbatim>\<open>popd\<close>. The command \<^verbatim>\<open>pushd "x\<close> passes the safety check and its text up
  to the quote is the one token \<^verbatim>\<open>pushd\<close>, but the quote is never closed: \<^verbatim>\<open>shlex.split\<close>
  raises \<^verbatim>\<open>ValueError\<close> in \<^verbatim>\<open>_is_directory_command\<close>, outside every \<^verbatim>\<open>try\<close>, and
  \<open>execute_command\<close> raises on every host and in every working directory instead of
  answering that the command is not implemented.
\<close>

theorem pushd_unbalanced_quote_raises:
  "\<not> is_dangerous_command (''pushd '' @ [CHR 0x22] @ ''x'') \<and>
   shlex_split ''pushd '' = Inr [''pushd''] \<and>
   execute_command h (''pushd '' @ [CHR 0x22] @ ''x'') current_directory =
     Inl (ValueError ''No closing quotation'')"
  by (simp add: execute_command_def danger_eval is_directory_command_def shlex_eval)

section \<open>When a new directory is returned\<close>

text \<open>
  Claim C9. Whenever \<open>execute_command\<close> returns a new directory, the outcome has
  \<open>success = True\<close>, \<^verbatim>\<open>os.path.isdir\<close> answered \<open>True\<close> for that path, and no process
  was started. Every other branch returns no new directory: a blocked command, a
  command that is not a directory command (exit, quit, host execution with its timeout
  and launch failure), and every outcome with \<open>success = False\<close> (path not found,
  unimplemented verb, failed process).
\<close>

theorem new_directory_invariant:
  assumes "execute_command h command current_directory =
             Inr ((message, success, new_directory), calls)"
  shows "(\<forall>path. new_directory = Some path \<longrightarrow>
            success \<and> isdir h path = Inr True \<and> calls = []) \<and>
         (is_dangerous_command command \<or> is_directory_command command = Inr False \<or>
            calls \<noteq> [] \<or> \<not> success \<longrightarrow> new_directory = None)"
  using assms
  by (auto simp: execute_command_def handle_directory_command_def Let_def
      split: if_splits sum.splits list.splits bool.splits process.splits)

theorem new_directory_invariant_witness:
  "execute_command (host_with [''/home''] TimeoutExpired) ''cd ..'' ''/home/user'' =
     Inr ((''Changed directory to: /home'', True, Some ''/home''), []) \<and>
   isdir (host_with [''/home''] TimeoutExpired) ''/home'' = Inr True"
proof -
  have run: "execute_command (host_with [''/home''] TimeoutExpired) ''cd ..'' ''/home/user'' =
     Inr ((''Changed directory to: /home'', True, Some ''/home''), [])"
    by (simp add: gate_eval danger_eval shlex_eval path_eval)
  from new_directory_invariant [OF run] run show ?thesis by simp
qed

section \<open>Changing the directory\<close>

lemma py_join_snoc:
  "py_join sep (xs @ [x]) = (if xs = [] then x else py_join sep xs @ sep @ x)"
  by (induction sep xs rule: py_join.induct) auto

lemma py_split_not_Nil: "py_split sep s \<noteq> []"
  by (induction s) (auto split: list.splits)

lemma py_split_plain: "sep \<notin> set w \<Longrightarrow> py_split sep w = [w]"
  by (induction w) auto

lemma py_split_word:
  "sep \<notin> set w \<Longrightarrow> py_split sep (w @ sep # rest) = w # py_split sep rest"
  by (induction w) auto

lemma py_split_join:
  "ns \<noteq> [] \<Longrightarrow> \<forall>n \<in> set ns. sep \<notin> set n \<Longrightarrow> py_split sep (py_join [sep] ns) = ns"
proof (induction "[sep]" ns rule: py_join.induct)
  case 1
  then show ?case by simp
next
  case (2 w)
  then show ?case by (simp add: py_split_plain)
next
  case (3 w v ws)
  then show ?case by (simp add: py_split_word)
qed

lemma posix_norm_comps_names:
  "\<forall>n \<in> set ns. proper_name n \<Longrightarrow>
   posix_norm_comps i (ns @ rest) acc = posix_norm_comps i rest (acc @ ns)"
  by (induction ns arbitrary: acc) (auto simp: proper_name_def)

lemma last_abs_path:
  assumes "proper_name name"
  shows "last (abs_path (names @ [name])) \<noteq> CHR ''/''"
proof -
  from assms have ne: "name \<noteq> []" and "CHR ''/'' \<notin> set name"
    by (auto simp: proper_name_def)
  then have "last name \<noteq> CHR ''/''" using last_in_set by metis
  with ne show ?thesis by (simp add: abs_path_def py_join_snoc)
qed

lemma posix_normpath_one_slash:
  "c \<noteq> CHR ''/'' \<Longrightarrow>
   posix_normpath (CHR ''/'' # c # cs) =
     ''/'' @ py_join ''/'' (posix_norm_comps 1 (py_split CHR ''/'' (CHR ''/'' # c # cs)) [])"
  by (simp add: posix_normpath_def Let_def)

lemma posix_parent_by_dotdot:
  assumes names: "\<forall>n \<in> set names. proper_name n" and name: "proper_name name"
  shows "posix_normpath (posix_join (abs_path (names @ [name])) ''..'') = abs_path names"
proof -
  let ?comps = "names @ [name]"
  let ?D = "abs_path ?comps"
  let ?rest = "py_join ''/'' (?comps @ [''..''])"
  have D_ne: "?D \<noteq> []" by (simp add: abs_path_def)
  have "last ?D \<noteq> CHR ''/''" using name by (rule last_abs_path)
  with D_ne have no_slash: "\<not> endswith ?D ''/''"
    by (cases "rev ?D") (auto simp: endswith_def last_rev)
  have snoc: "?rest = py_join ''/'' ?comps @ ''/..''"
    using py_join_snoc [of "''/''" ?comps "''..''"] by simp
  have joined: "posix_join ?D ''..'' = CHR ''/'' # ?rest"
    unfolding snoc using D_ne no_slash by (simp add: posix_join_def abs_path_def)
  have all_plain: "\<forall>n \<in> set (?comps @ [''..'']). CHR ''/'' \<notin> set n"
    using names name by (auto simp: proper_name_def)
  have split: "py_split CHR ''/'' (CHR ''/'' # ?rest) = [] # ?comps @ [''..'']"
    using py_split_join [OF _ all_plain] by simp
  obtain c cs where first: "?rest = c # cs" and c: "c \<noteq> CHR ''/''"
  proof (cases names)
    case Nil
    with name obtain c cs where "name = c # cs" "c \<noteq> CHR ''/''"
      by (cases name) (auto simp: proper_name_def)
    with Nil that show ?thesis by simp
  next
    case (Cons n ns)
    with names obtain c cs where n: "n = c # cs" "c \<noteq> CHR ''/''"
      by (cases n) (auto simp: proper_name_def)
    from Cons obtain v vs where "ns @ [name, ''..''] = v # vs" by (cases ns) auto
    with Cons n that show ?thesis by simp
  qed
  have comps: "posix_norm_comps 1 ([] # ?comps @ [''..'']) [] = names"
    using posix_norm_comps_names [of ?comps 1 "[''..'']" "[]"] names name
    by (auto simp: proper_name_def)
  have "posix_normpath (CHR ''/'' # ?rest) =
          ''/'' @ py_join ''/'' (posix_norm_comps 1 (py_split CHR ''/'' (CHR ''/'' # ?rest)) [])"
    using posix_normpath_one_slash [OF c, of cs] by (simp only: first)
  also have "\<dots> = ''/'' @ py_join ''/'' names"
    by (simp only: split comps)
  finally have "posix_normpath (posix_join ?D ''..'') = ''/'' @ py_join ''/'' names"
    by (simp only: joined)
  then show ?thesis
    by (simp only: abs_path_def [of names])
qed

lemma nt_norm_comps_names:
  "\<forall>n \<in> set ns. nt_name n \<Longrightarrow>
   nt_norm_comps prefix acc (ns @ rest) = nt_norm_comps prefix (acc @ ns) rest"
  by (induction ns arbitrary: acc) (auto simp: nt_name_def)

lemma nt_splitdrive_letter:
  "nt_splitdrive (d # CHR '':'' # rest) = ([d, CHR '':''], rest)"
  by (simp add: nt_splitdrive_def replace_altsep_def nt_sep_def nt_altsep_def Let_def)

lemma nt_splitdrive_dotdot: "nt_splitdrive ''..'' = ([], ''..'')"
  by (simp add: nt_splitdrive_def replace_altsep_def nt_sep_def nt_altsep_def Let_def)

lemma replace_altsep_id: "nt_altsep \<notin> set s \<Longrightarrow> replace_altsep s = s"
  by (induction s) (auto simp: replace_altsep_def)

lemma nt_parent_by_dotdot:
  assumes d: "d \<noteq> nt_altsep"
    and names: "\<forall>n \<in> set names. nt_name n" and name: "nt_name name"
  shows "nt_normpath (nt_join (drive_path d (names @ [name])) ''..'') = drive_path d names"
proof -
  let ?comps = "names @ [name]"
  let ?J = "py_join [nt_sep] ?comps"
  let ?rest = "py_join [nt_sep] (?comps @ [''..''])"
  have snoc: "?rest = ?J @ [nt_sep] @ ''..''"
    using py_join_snoc [of "[nt_sep]" ?comps "''..''"] by simp
  from name have name_ne: "name \<noteq> []" and name_sep: "nt_sep \<notin> set name"
    and name_alt: "nt_altsep \<notin> set name"
    by (auto simp: nt_name_def)
  have J_snoc: "?J = (if names = [] then name else py_join [nt_sep] names @ [nt_sep] @ name)"
    by (rule py_join_snoc)
  with name_ne have J_ne: "?J \<noteq> []" by auto
  from name_ne J_snoc have "last ?J = last name" by auto
  moreover from name_ne have "last name \<in> set name" by simp
  with name_sep name_alt have "\<not> is_sep (last name)"
    by (auto simp: is_sep_def)
  ultimately have J_last: "\<not> is_sep (last ?J)" by simp
  obtain c cs where first: "?rest = c # cs" and c: "c \<noteq> nt_sep"
  proof (cases names)
    case Nil
    with name obtain c cs where "name = c # cs" "c \<noteq> nt_sep"
      by (cases name) (auto simp: nt_name_def)
    with Nil that show ?thesis by simp
  next
    case (Cons n ns)
    with names obtain c cs where n: "n = c # cs" "c \<noteq> nt_sep"
      by (cases n) (auto simp: nt_name_def)
    from Cons obtain v vs where "ns @ [name, ''..''] = v # vs" by (cases ns) auto
    with Cons n that show ?thesis by simp
  qed
  have no_alt: "nt_altsep \<notin> set ?rest"
    unfolding snoc using names name_alt
    by (induction "[nt_sep]" names rule: py_join.induct)
       (auto simp: nt_name_def nt_sep_def nt_altsep_def py_join_snoc)
  have joined: "nt_join (drive_path d ?comps) ''..'' = [d, CHR '':'', nt_sep] @ ?rest"
    unfolding snoc using J_ne J_last
    by (simp add: nt_join_def drive_path_def nt_splitdrive_letter nt_splitdrive_dotdot
        is_sep_def nt_sep_def nt_altsep_def)
  have turned: "replace_altsep ([d, CHR '':'', nt_sep] @ ?rest) = [d, CHR '':'', nt_sep] @ ?rest"
    using d no_alt by (intro replace_altsep_id) (auto simp: nt_sep_def nt_altsep_def)
  have all_plain: "\<forall>n \<in> set (?comps @ [''..'']). nt_sep \<notin> set n"
    using names name by (auto simp: nt_name_def nt_sep_def)
  have split: "py_split nt_sep ?rest = ?comps @ [''..'']"
    using py_split_join [OF _ all_plain] by simp
  have comps: "nt_norm_comps [d, CHR '':'', nt_sep] [] (?comps @ [''..'']) = names"
    using nt_norm_comps_names [of ?comps "[d, CHR '':'', nt_sep]" "[]" "[''..'']"] names name
    by (auto simp: nt_name_def)
  have drive: "nt_splitdrive ([d, CHR '':'', nt_sep] @ ?rest) = ([d, CHR '':''], nt_sep # ?rest)"
    using nt_splitdrive_letter [of d "nt_sep # ?rest"] by simp
  have rooted: "startswith (nt_sep # ?rest) [nt_sep]" by simp
  have stripped: "dropWhile (\<lambda>c. c = nt_sep) (nt_sep # ?rest) = ?rest"
    using c by (simp only: first) simp
  have "nt_normpath ([d, CHR '':'', nt_sep] @ ?rest) =
          [d, CHR '':'', nt_sep] @ py_join [nt_sep] names"
    unfolding nt_normpath_def turned drive
    by (simp only: Let_def prod.case rooted if_True stripped split append_Cons append_Nil comps)
       simp
  then show ?thesis
    by (simp only: joined drive_path_def [of d names])
qed

lemma dotdot_relative: "\<not> isabs os ''..''"
  by (cases os) (simp_all add: isabs_def posix_isabs_def nt_isabs_def replace_altsep_def
      nt_sep_def nt_altsep_def)

lemma cd_with_argument:
  assumes "\<not> is_dangerous_command command"
    and "shlex_split command = Inr (first # arg # args)"
    and "py_lower first = ''cd'' \<or> py_lower first = ''chdir''"
    and "target = strip_quotes (py_join '' '' (arg # args))"
    and "resolved = (if isabs (os_name h) target then target
                     else normpath (os_name h) (path_join (os_name h) current_directory target))"
  shows "execute_command h command current_directory =
     (case isdir h resolved of
        Inl e \<Rightarrow> Inr ((''Error changing directory: '' @ e, False, None), [])
      | Inr True \<Rightarrow> Inr ((''Changed directory to: '' @ resolved, True, Some resolved), [])
      | Inr False \<Rightarrow>
          Inr ((''The system cannot find the path specified: '' @ target, False, None), []))"
proof -
  have dir: "is_directory_command command = Inr True"
    using assms(2,3) by (auto simp: is_directory_command_def DIRECTORY_COMMANDS_def)
  have "handle_directory_command h command current_directory =
     (case isdir h resolved of
        Inl e \<Rightarrow> Inr (''Error changing directory: '' @ e, False, None)
      | Inr True \<Rightarrow> Inr (''Changed directory to: '' @ resolved, True, Some resolved)
      | Inr False \<Rightarrow> Inr (''The system cannot find the path specified: '' @ target, False, None))"
    using assms(2,3) unfolding assms(4,5)
    by (simp add: handle_directory_command_def Let_def)
  then show ?thesis
    using assms(1) dir
    by (simp add: execute_command_def split: sum.splits bool.splits)
qed

lemma cd_dotdot_tokens:
  "\<not> is_dangerous_command ''cd ..''" "shlex_split ''cd ..'' = Inr [''cd'', ''..'']"
  "py_lower ''cd'' = ''cd'' \<or> py_lower ''cd'' = ''chdir''"
  "''..'' = strip_quotes (py_join '' '' [''..''])"
  by (simp_all add: danger_eval shlex_eval strip_quotes_def strip_chars_def)

text \<open>
  Claim C4, as stated, fails: a directory command is first put through the safety check,
  so \<^verbatim>\<open>cd information\<close> is blocked although \<^verbatim>\<open>/home/information\<close> is a directory; the
  directory commands \<^verbatim>\<open>pushd\<close> and \<^verbatim>\<open>popd\<close> never change the directory; and \<^verbatim>\<open>cd "docs\<close>,
  with a quote that is never closed, raises \<^verbatim>\<open>ValueError\<close> although \<^verbatim>\<open>/home/docs\<close> is a
  directory.
\<close>

theorem change_directory_counterexample:
  "shlex_split ''cd information'' = Inr [''cd'', ''information''] \<and>
   isdir (host_with [''/home/information''] TimeoutExpired)
     (normpath Posix (path_join Posix ''/home'' (strip_quotes (py_join '' '' [''information'']))))
     = Inr True \<and>
   execute_command (host_with [''/home/information''] TimeoutExpired) ''cd information'' ''/home'' =
     Inr ((blocked_message, False, None), []) \<and>
   shlex_split ''pushd /tmp'' = Inr [''pushd'', ''/tmp''] \<and>
   isdir (host_with [''/tmp''] TimeoutExpired) ''/tmp'' = Inr True \<and>
   execute_command (host_with [''/tmp''] TimeoutExpired) ''pushd /tmp'' ''/home'' =
     Inr ((''Command pushd not fully implemented.'', False, None), []) \<and>
   isdir (host_with [''/home/docs''] TimeoutExpired)
     (normpath Posix (path_join Posix ''/home'' (strip_quotes ([CHR 0x22] @ ''docs'')))) = Inr True \<and>
   execute_command (host_with [''/home/docs''] TimeoutExpired)
       (''cd '' @ [CHR 0x22] @ ''docs'') ''/home'' =
     Inl (ValueError ''No closing quotation'')"
  by (simp add: gate_eval danger_eval shlex_eval path_eval is_quote_def)

text \<open>
  Claim C4, amended. A command that passes the safety check, is split into tokens, has
  \<^verbatim>\<open>cd\<close> or \<^verbatim>\<open>chdir\<close> in any case as its first token and has at least one more token,
  has as its target the remaining tokens joined by single spaces, without the quote
  characters at its ends. The target resolves to itself when \<^verbatim>\<open>os.path\<close> of the platform
  takes it as absolute, and to the normalised join with the working directory
  otherwise. When the resolved path is a directory, the outcome is \<open>success = True\<close>,
  the message \<^verbatim>\<open>Changed directory to: \<close> followed by the resolved path, and that path as
  the new directory. In particular \<^verbatim>\<open>cd ..\<close> in any working directory changes to the
  normalised join of that directory with \<^verbatim>\<open>..\<close> when that is a directory. This is the
  parent: on POSIX, in \<open>abs_path (names @ [name])\<close> it is \<open>abs_path names\<close>, and on
  Windows, in \<open>drive_path d (folders @ [folder])\<close> it is \<open>drive_path d folders\<close>.
\<close>

theorem change_directory:
  "(\<not> is_dangerous_command command \<and>
    shlex_split command = Inr (first # arg # args) \<and>
    (py_lower first = ''cd'' \<or> py_lower first = ''chdir'') \<and>
    target = strip_quotes (py_join '' '' (arg # args)) \<and>
    resolved = (if isabs (os_name h) target then target
                else normpath (os_name h) (path_join (os_name h) current_directory target)) \<and>
    isdir h resolved = Inr True
    \<longrightarrow> execute_command h command current_directory =
          Inr ((''Changed directory to: '' @ resolved, True, Some resolved), [])) \<and>
   (parent = normpath (os_name h) (path_join (os_name h) directory ''..'') \<and>
    isdir h parent = Inr True
    \<longrightarrow> execute_command h ''cd ..'' directory =
          Inr ((''Changed directory to: '' @ parent, True, Some parent), [])) \<and>
   (os_name h = Posix \<and> (\<forall>n \<in> set names. proper_name n) \<and> proper_name name \<and>
    isdir h (abs_path names) = Inr True
    \<longrightarrow> execute_command h ''cd ..'' (abs_path (names @ [name])) =
          Inr ((''Changed directory to: '' @ abs_path names, True, Some (abs_path names)), [])) \<and>
   (os_name h = Nt \<and> d \<noteq> nt_altsep \<and> (\<forall>n \<in> set folders. nt_name n) \<and> nt_name folder \<and>
    isdir h (drive_path d folders) = Inr True
    \<longrightarrow> execute_command h ''cd ..'' (drive_path d (folders @ [folder])) =
          Inr ((''Changed directory to: '' @ drive_path d folders, True,
                Some (drive_path d folders)), []))"
proof -
  have up: "execute_command h ''cd ..'' D =
          Inr ((''Changed directory to: '' @ P, True, Some P), [])"
    if "P = normpath (os_name h) (path_join (os_name h) D ''..'')" and "isdir h P = Inr True"
    for D P
  proof -
    from that(1) have "P = (if isabs (os_name h) ''..'' then ''..''
        else normpath (os_name h) (path_join (os_name h) D ''..''))"
      by (simp add: dotdot_relative)
    from cd_with_argument [OF cd_dotdot_tokens this] that(2) show ?thesis by simp
  qed
  show ?thesis
  proof (intro conjI impI)
    assume a: "\<not> is_dangerous_command command \<and>
      shlex_split command = Inr (first # arg # args) \<and>
      (py_lower first = ''cd'' \<or> py_lower first = ''chdir'') \<and>
      target = strip_quotes (py_join '' '' (arg # args)) \<and>
      resolved = (if isabs (os_name h) target then target
                  else normpath (os_name h) (path_join (os_name h) current_directory target)) \<and>
      isdir h resolved = Inr True"
    then have "isdir h resolved = Inr True" by blast
    then show "execute_command h command current_directory =
            Inr ((''Changed directory to: '' @ resolved, True, Some resolved), [])"
      using a cd_with_argument [of command first arg args target resolved h current_directory]
      by simp
  next
    assume "parent = normpath (os_name h) (path_join (os_name h) directory ''..'') \<and>
      isdir h parent = Inr True"
    then show "execute_command h ''cd ..'' directory =
            Inr ((''Changed directory to: '' @ parent, True, Some parent), [])"
      using up by blast
  next
    assume a: "os_name h = Posix \<and> (\<forall>n \<in> set names. proper_name n) \<and> proper_name name \<and>
      isdir h (abs_path names) = Inr True"
    then have "abs_path names =
        normpath (os_name h) (path_join (os_name h) (abs_path (names @ [name])) ''..'')"
      using posix_parent_by_dotdot [of names name] by (simp add: normpath_def path_join_def)
    with a show "execute_command h ''cd ..'' (abs_path (names @ [name])) =
            Inr ((''Changed directory to: '' @ abs_path names, True, Some (abs_path names)), [])"
      using up by blast
  next
    assume a: "os_name h = Nt \<and> d \<noteq> nt_altsep \<and> (\<forall>n \<in> set folders. nt_name n) \<and>
      nt_name folder \<and> isdir h (drive_path d folders) = Inr True"
    then have "drive_path d folders =
        normpath (os_name h) (path_join (os_name h) (drive_path d (folders @ [folder])) ''..'')"
      using nt_parent_by_dotdot [of d folders folder] by (simp add: normpath_def path_join_def)
    with a show "execute_command h ''cd ..'' (drive_path d (folders @ [folder])) =
            Inr ((''Changed directory to: '' @ drive_path d folders, True,
                  Some (drive_path d folders)), [])"
      using up by blast
  qed
qed

theorem change_directory_witness:
  "\<not> is_dangerous_command ''ChDir docs/../pics'' \<and>
   shlex_split ''ChDir docs/../pics'' = Inr [''ChDir'', ''docs/../pics''] \<and>
   py_lower ''ChDir'' = ''chdir'' \<and>
   ''docs/../pics'' = strip_quotes (py_join '' '' [''docs/../pics'']) \<and>
   ''/home/user/pics'' = normpath Posix (path_join Posix ''/home/user'' ''docs/../pics'') \<and>
   execute_command (host_with [''/home'', ''/home/user/pics''] TimeoutExpired)
       ''ChDir docs/../pics'' ''/home/user'' =
     Inr ((''Changed directory to: /home/user/pics'', True, Some ''/home/user/pics''), []) \<and>
   ''/home'' = normpath Posix (path_join Posix ''/home/user/'' ''..'') \<and>
   execute_command (host_with [''/home'', ''/home/user/pics''] TimeoutExpired)
       ''cd ..'' ''/home/user/'' =
     Inr ((''Changed directory to: /home'', True, Some ''/home''), []) \<and>
   proper_name ''home'' \<and> proper_name ''user'' \<and>
   execute_command (host_with [''/home'', ''/home/user/pics''] TimeoutExpired)
       ''cd ..'' ''/home/user'' =
     Inr ((''Changed directory to: /home'', True, Some ''/home''), []) \<and>
   \<not> is_dangerous_command (''cd '' @ drive_path CHR ''C'' [''Windows'']) \<and>
   shlex_split (''cd '' @ drive_path CHR ''C'' [''Windows'']) =
     Inr [''cd'', drive_path CHR ''C'' [''Windows'']] \<and>
   isabs Nt (drive_path CHR ''C'' [''Windows'']) \<and>
   execute_command
       (windows_with [drive_path CHR ''C'' [''Users''], drive_path CHR ''C'' [''Windows'']]
          TimeoutExpired)
       (''cd '' @ drive_path CHR ''C'' [''Windows'']) (drive_path CHR ''C'' [''Users'', ''me'']) =
     Inr ((''Changed directory to: '' @ drive_path CHR ''C'' [''Windows''], True,
           Some (drive_path CHR ''C'' [''Windows''])), []) \<and>
   nt_name ''Users'' \<and> nt_name ''me'' \<and>
   execute_command
       (windows_with [drive_path CHR ''C'' [''Users''], drive_path CHR ''C'' [''Windows'']]
          TimeoutExpired)
       ''cd ..'' (drive_path CHR ''C'' [''Users'', ''me'']) =
     Inr ((''Changed directory to: '' @ drive_path CHR ''C'' [''Users''], True,
           Some (drive_path CHR ''C'' [''Users''])), [])"
proof -
  let ?H = "host_with [''/home'', ''/home/user/pics''] TimeoutExpired"
  let ?W = "windows_with [drive_path CHR ''C'' [''Users''], drive_path CHR ''C'' [''Windows'']]
          TimeoutExpired"
  let ?win = "drive_path CHR ''C'' [''Windows'']"
  have safe: "\<not> is_dangerous_command ''ChDir docs/../pics''"
    by (simp add: danger_eval)
  have toks: "shlex_split ''ChDir docs/../pics'' = Inr [''ChDir'', ''docs/../pics'']"
    by (simp add: shlex_eval)
  have verb: "py_lower ''ChDir'' = ''chdir''"
    by (simp add: lower_eval)
  have target: "''docs/../pics'' = strip_quotes (py_join '' '' [''docs/../pics''])"
    by (simp add: strip_quotes_def strip_chars_def is_quote_def)
  have resolved: "''/home/user/pics'' = normpath Posix (path_join Posix ''/home/user'' ''docs/../pics'')"
    by (simp add: path_eval Let_def)
  have parent: "''/home'' = normpath Posix (path_join Posix ''/home/user/'' ''..'')"
    by (simp add: path_eval Let_def)
  have names: "proper_name ''home''" "proper_name ''user''"
    by (simp_all add: proper_name_def)
  have os: "os_name ?H = Posix" "os_name ?W = Nt"
    by (simp_all add: host_with_def windows_with_def)
  have dirs: "isdir ?H ''/home/user/pics'' = Inr True" "isdir ?H ''/home'' = Inr True"
    by (simp_all add: host_with_def)
  have paths: "abs_path [''home''] = ''/home''" "abs_path ([''home''] @ [''user'']) = ''/home/user''"
    by (simp_all add: abs_path_def)
  note posix = change_directory [where command = "''ChDir docs/../pics''" and first = "''ChDir''"
      and arg = "''docs/../pics''" and args = "[]" and target = "''docs/../pics''"
      and resolved = "''/home/user/pics''" and current_directory = "''/home/user''"
      and h = ?H and parent = "''/home''" and directory = "''/home/user/''"
      and names = "[''home'']" and name = "''user''"]
  have not_abs: "\<not> isabs Posix ''docs/../pics''" by (simp add: path_eval)
  have one: "execute_command ?H ''ChDir docs/../pics'' ''/home/user'' =
     Inr ((''Changed directory to: /home/user/pics'', True, Some ''/home/user/pics''), [])"
    using posix safe toks verb target resolved dirs(1) not_abs os(1) by simp
  have two: "execute_command ?H ''cd ..'' ''/home/user/'' =
     Inr ((''Changed directory to: /home'', True, Some ''/home''), [])"
    using posix parent dirs(2) os(1) by simp
  have three: "execute_command ?H ''cd ..'' ''/home/user'' =
     Inr ((''Changed directory to: /home'', True, Some ''/home''), [])"
    using posix names dirs(2) paths os(1) by simp
  have wsafe: "\<not> is_dangerous_command (''cd '' @ ?win)"
    by (simp add: danger_eval drive_path_def nt_sep_def)
  have wtoks: "shlex_split (''cd '' @ ?win) = Inr [''cd'', ?win]"
    by (simp add: shlex_eval drive_path_def nt_sep_def)
  have wverb: "py_lower ''cd'' = ''cd'' \<or> py_lower ''cd'' = ''chdir''"
    by (simp add: lower_eval)
  have wtarget: "?win = strip_quotes (py_join '' '' [?win])"
    by (simp add: strip_quotes_def strip_chars_def is_quote_def drive_path_def nt_sep_def)
  have wabs: "isabs Nt ?win"
    by (simp add: isabs_def nt_eval)
  have folders: "nt_name ''Users''" "nt_name ''me''"
    by (simp_all add: nt_name_def nt_sep_def nt_altsep_def)
  have wdirs: "isdir ?W ?win = Inr True" "isdir ?W (drive_path CHR ''C'' [''Users'']) = Inr True"
    by (simp_all add: windows_with_def)
  have drive: "CHR ''C'' \<noteq> nt_altsep" by (simp add: nt_altsep_def)
  note windows = change_directory [where command = "''cd '' @ ?win" and first = "''cd''"
      and arg = ?win and args = "[]" and target = ?win
      and resolved = ?win and current_directory = "drive_path CHR ''C'' [''Users'', ''me'']"
      and h = ?W and d = "CHR ''C''" and folders = "[''Users'']" and folder = "''me''"]
  have four: "execute_command ?W (''cd '' @ ?win) (drive_path CHR ''C'' [''Users'', ''me'']) =
     Inr ((''Changed directory to: '' @ ?win, True, Some ?win), [])"
    using windows wsafe wtoks wverb wtarget wabs wdirs(1) os(2) by simp
  have five: "execute_command ?W ''cd ..'' (drive_path CHR ''C'' [''Users'', ''me'']) =
     Inr ((''Changed directory to: '' @ drive_path CHR ''C'' [''Users''], True,
           Some (drive_path CHR ''C'' [''Users''])), [])"
    using windows folders wdirs(2) drive os(2) by simp
  from safe toks verb target resolved one parent two names three wsafe wtoks wabs four folders five
  show ?thesis by blast
qed

text \<open>
  Claim C5, as stated, fails for the same reasons: \<^verbatim>\<open>cd /no/information\<close> names a path
  that does not exist and is answered with the blocked-for-safety message, not with a
  path-not-found message; \<^verbatim>\<open>pushd /nowhere\<close> is answered as not implemented; and
  \<^verbatim>\<open>cd "nowhere\<close>, with a quote that is never closed, raises \<^verbatim>\<open>ValueError\<close>.
\<close>

theorem missing_directory_counterexample:
  "shlex_split ''cd /no/information'' = Inr [''cd'', ''/no/information''] \<and>
   isdir (host_with [''/home''] TimeoutExpired) ''/no/information'' = Inr False \<and>
   execute_command (host_with [''/home''] TimeoutExpired) ''cd /no/information'' ''/home'' =
     Inr ((blocked_message, False, None), []) \<and>
   blocked_message \<noteq> ''The system cannot find the path specified: /no/information'' \<and>
   shlex_split ''pushd /nowhere'' = Inr [''pushd'', ''/nowhere''] \<and>
   isdir (host_with [''/home''] TimeoutExpired) ''/nowhere'' = Inr False \<and>
   execute_command (host_with [''/home''] TimeoutExpired) ''pushd /nowhere'' ''/home'' =
     Inr ((''Command pushd not fully implemented.'', False, None), []) \<and>
   isdir (host_with [''/home''] TimeoutExpired)
     (normpath Posix (path_join Posix ''/home'' (strip_quotes ([CHR 0x22] @ ''nowhere'')))) =
     Inr False \<and>
   execute_command (host_with [''/home''] TimeoutExpired)
       (''cd '' @ [CHR 0x22] @ ''nowhere'') ''/home'' =
     Inl (ValueError ''No closing quotation'')"
  by (simp add: gate_eval danger_eval shlex_eval blocked_message_def path_eval is_quote_def)

text \<open>
  Claim C5, amended. A command that passes the safety check, is split into tokens, has
  \<^verbatim>\<open>cd\<close> or \<^verbatim>\<open>chdir\<close> in any case as its first token and has at least one more token,
  and whose target, resolved by \<^verbatim>\<open>os.path\<close> of the platform, is not a directory, is
  answered with \<open>success = False\<close>, the message
  \<^verbatim>\<open>The system cannot find the path specified: \<close> followed by the target as typed
  (joined and without the quotes at its ends, not resolved), and no new directory;
  the directory of the session stays.
\<close>

theorem missing_directory:
  assumes "\<not> is_dangerous_command command"
    and "shlex_split command = Inr (first # arg # args)"
    and "py_lower first = ''cd'' \<or> py_lower first = ''chdir''"
    and "target = strip_quotes (py_join '' '' (arg # args))"
    and "resolved = (if isabs (os_name h) target then target
                     else normpath (os_name h) (path_join (os_name h) current_directory target))"
    and "isdir h resolved = Inr False"
  shows "execute_command h command current_directory =
           Inr ((''The system cannot find the path specified: '' @ target, False, None), []) \<and>
         submit h command current_directory = current_directory"
  using cd_with_argument [OF assms(1-5)] assms(6)
  by (simp add: submit_def)

theorem missing_directory_witness:
  "\<not> is_dangerous_command ''cd /path/does/not/exist'' \<and>
   shlex_split ''cd /path/does/not/exist'' = Inr [''cd'', ''/path/does/not/exist''] \<and>
   ''/path/does/not/exist'' = strip_quotes (py_join '' '' [''/path/does/not/exist'']) \<and>
   isabs Posix ''/path/does/not/exist'' \<and>
   isdir (host_with [''/home''] TimeoutExpired) ''/path/does/not/exist'' = Inr False \<and>
   execute_command (host_with [''/home''] TimeoutExpired) ''cd /path/does/not/exist'' ''/home'' =
     Inr ((''The system cannot find the path specified: /path/does/not/exist'', False, None), []) \<and>
   submit (host_with [''/home''] TimeoutExpired) ''cd /path/does/not/exist'' ''/home'' = ''/home'' \<and>
   \<not> is_dangerous_command ''cd missing'' \<and>
   shlex_split ''cd missing'' = Inr [''cd'', ''missing''] \<and>
   \<not> isabs Nt ''missing'' \<and>
   drive_path CHR ''C'' [''Users'', ''missing''] =
     normpath Nt (path_join Nt (drive_path CHR ''C'' [''Users'']) ''missing'') \<and>
   isdir (windows_with [drive_path CHR ''C'' [''Users'']] TimeoutExpired)
     (drive_path CHR ''C'' [''Users'', ''missing'']) = Inr False \<and>
   execute_command (windows_with [drive_path CHR ''C'' [''Users'']] TimeoutExpired)
       ''cd missing'' (drive_path CHR ''C'' [''Users'']) =
     Inr ((''The system cannot find the path specified: missing'', False, None), []) \<and>
   submit (windows_with [drive_path CHR ''C'' [''Users'']] TimeoutExpired)
       ''cd missing'' (drive_path CHR ''C'' [''Users'']) = drive_path CHR ''C'' [''Users'']"
proof -
  let ?H = "host_with [''/home''] TimeoutExpired"
  let ?W = "windows_with [drive_path CHR ''C'' [''Users'']] TimeoutExpired"
  have safe: "\<not> is_dangerous_command ''cd /path/does/not/exist''"
    by (simp add: danger_eval)
  have toks: "shlex_split ''cd /path/does/not/exist'' = Inr [''cd'', ''/path/does/not/exist'']"
    by (simp add: shlex_eval)
  have verb: "py_lower ''cd'' = ''cd'' \<or> py_lower ''cd'' = ''chdir''"
    by (simp add: lower_eval)
  have target: "''/path/does/not/exist'' = strip_quotes (py_join '' '' [''/path/does/not/exist''])"
    by (simp add: strip_quotes_def strip_chars_def is_quote_def)
  have abs: "isabs Posix ''/path/does/not/exist''" by (simp add: path_eval)
  then have resolved: "''/path/does/not/exist'' =
      (if isabs (os_name ?H) ''/path/does/not/exist'' then ''/path/does/not/exist''
       else normpath (os_name ?H) (path_join (os_name ?H) ''/home'' ''/path/does/not/exist''))"
    by (simp add: host_with_def)
  have gone: "isdir ?H ''/path/does/not/exist'' = Inr False"
    by (simp add: host_with_def)
  note posix = missing_directory [OF safe toks verb target resolved gone]
  have wsafe: "\<not> is_dangerous_command ''cd missing''"
    by (simp add: danger_eval)
  have wtoks: "shlex_split ''cd missing'' = Inr [''cd'', ''missing'']"
    by (simp add: shlex_eval)
  have wtarget: "''missing'' = strip_quotes (py_join '' '' [''missing''])"
    by (simp add: strip_quotes_def strip_chars_def is_quote_def)
  have wrel: "\<not> isabs Nt ''missing''"
    by (simp add: isabs_def nt_eval)
  have wjoin: "drive_path CHR ''C'' [''Users'', ''missing''] =
     normpath Nt (path_join Nt (drive_path CHR ''C'' [''Users'']) ''missing'')"
    by (simp add: path_eval nt_eval Let_def)
  with wrel have wresolved: "drive_path CHR ''C'' [''Users'', ''missing''] =
      (if isabs (os_name ?W) ''missing'' then ''missing''
       else normpath (os_name ?W) (path_join (os_name ?W) (drive_path CHR ''C'' [''Users'']) ''missing''))"
    by (simp add: windows_with_def)
  have wgone: "isdir ?W (drive_path CHR ''C'' [''Users'', ''missing'']) = Inr False"
    by (simp add: nt_eval)
  note windows = missing_directory [OF wsafe wtoks verb wtarget wresolved wgone]
  from posix windows safe toks target abs gone wsafe wtoks wrel wjoin wgone
  show ?thesis by simp
qed

section \<open>Quoted and unquoted directory names\<close>









lemma py_lower_append: "py_lower (a @ b) = py_lower a @ py_lower b"
  by (simp add: py_lower_def)


lemma py_lower_quote: "py_lower [CHR 0x22] = [CHR 0x22]"
  by (simp add: lower_eval)














end
